theory Spec2Isabelle
  imports Main
begin

section \<open>The chat page of \<^verbatim>\<open>src/chat.jsx\<close>: data model\<close>

text \<open>
  The component \<^verbatim>\<open>ChatPage\<close> keeps its state in React state cells and, inside
  \<^verbatim>\<open>sendMessage\<close>, in three closure variables (\<^verbatim>\<open>assistantMsg\<close>,
  \<^verbatim>\<open>messageAdded\<close>, \<^verbatim>\<open>buffer\<close>).  The state cells are the fields of the
  record \<open>chat_state\<close>; the closure variables extend it to the record \<open>exchange\<close>.

  Modelling conventions.
  \<^item> JavaScript strings are \<open>string\<close>; \<open>@\<close> is string concatenation.
  \<^item> The roles \<^verbatim>\<open>"user"\<close>, \<^verbatim>\<open>"assistant"\<close> and the tool statuses \<^verbatim>\<open>"calling"\<close>,
    \<^verbatim>\<open>"completed"\<close> are the only values the code ever writes into these fields; they
    are datatypes.
  \<^item> A state setter called with an updater function queues the updater; React runs the
    queued updaters of a cell in the order they were queued, at once or at a later
    render.  A field of \<open>chat_state\<close> holds the value of its cell once the updaters queued
    so far have run.  For every cell but \<^verbatim>\<open>messages\<close> this is the value at the point of
    the call, since those updaters read nothing but the previous value and the event.
  \<^item> The updater of \<^verbatim>\<open>TEXT_MESSAGE_CONTENT\<close> (lines 141-148) reads the object
    \<^verbatim>\<open>assistantMsg\<close>, which later events change (line 140): it copies the object as it
    is when the updater runs.  The field \<open>pending\<close> lists the positions of the transcript
    that such an updater overwrites and that has not run yet; a later delta changes the
    message at these positions too.  When the queued updaters run is not fixed by the
    source: a schedule \<open>sched\<close> tells, for the \<open>n\<close>-th decoded event of the exchange
    (counted by \<open>seen\<close>), whether they have run before the next event is handled.
    The updater of \<^verbatim>\<open>TEXT_MESSAGE_START\<close> (line 134) appends the object itself; while
    events are handled it is the last message, so the updater of the event that changes
    the object overwrites it.
  \<^item> \<^verbatim>\<open>Date.now()\<close> and \<^verbatim>\<open>new Date().toLocaleTimeString(...)\<close> read the wall clock.
    One call of \<^verbatim>\<open>sendMessage\<close> is given a clock \<open>clk\<close>: \<open>clk n\<close> is the reading taken
    for the \<open>n\<close>-th message object the call builds; the counter \<open>tick\<close> counts them.
    The objects are built in the same order whenever the updaters run.
\<close>

datatype role = User | Assistant

record message =
  msg_id :: nat
  role :: role
  content :: string
  time :: string

datatype tc_status = Calling | Completed

record tool_call =
  tc_id :: string
  name :: string
  args :: string
  result :: string
  status :: tc_status
  expanded :: bool

record chat_state =
  messages :: "message list"
  input :: string
  isLoading :: bool
  currentStatus :: string
  toolCalls :: "tool_call list"
  userHasScrolled :: bool
  isNearBottom :: bool

record exchange = chat_state +
  assistantMsg :: message
  messageAdded :: bool
  tick :: nat
  pending :: "nat list"
  seen :: nat

record stamp =
  now :: nat
  hhmm :: string

type_synonym clock = "nat \<Rightarrow> stamp"

type_synonym schedule = "nat \<Rightarrow> bool"

text \<open>
  A decoded event: the value of \<^verbatim>\<open>JSON.parse(data)\<close>, read through the fields the
  \<^verbatim>\<open>switch\<close> uses.  The fields \<^verbatim>\<open>delta\<close>, \<^verbatim>\<open>toolCallId\<close>, \<^verbatim>\<open>toolCallName\<close>,
  \<^verbatim>\<open>content\<close> and \<^verbatim>\<open>message\<close> are strings, as the wire format has them.
  \<open>UNKNOWN t\<close> is an event whose \<^verbatim>\<open>type\<close> is none of the nine cases.
\<close>

datatype event =
    RUN_STARTED
  | TEXT_MESSAGE_START
  | TEXT_MESSAGE_CONTENT string
  | TEXT_MESSAGE_END
  | TOOL_CALL_START string string
  | TOOL_CALL_ARGS string string
  | TOOL_CALL_RESULT string string
  | RUN_FINISHED
  | RUN_ERROR string
  | UNKNOWN string

section \<open>The reducer: the \<^verbatim>\<open>switch (event.type)\<close> of \<^verbatim>\<open>sendMessage\<close>\<close>

text \<open>Lines 141-148: the updater of \<^verbatim>\<open>TEXT_MESSAGE_CONTENT\<close>.\<close>

definition replace_last_assistant :: "message \<Rightarrow> message list \<Rightarrow> message list" where
  "replace_last_assistant m prev =
     (if prev \<noteq> [] \<and> role (last prev) = Assistant
      then prev[length prev - 1 := m] else prev)"

text \<open>
  Line 140 seen from the transcript: the updaters of lines 141-148 that are still queued
  for the positions \<open>ps\<close> will copy the object as it is now, \<open>m\<close>.
\<close>

definition overwrite :: "message \<Rightarrow> nat list \<Rightarrow> message list \<Rightarrow> message list" where
  "overwrite m ps prev = fold (\<lambda>i ms. ms[i := m]) ps prev"

text \<open>Lines 157-173: the updater of \<^verbatim>\<open>TOOL_CALL_START\<close>.\<close>

definition start_tool_call :: "string \<Rightarrow> string \<Rightarrow> tool_call list \<Rightarrow> tool_call list" where
  "start_tool_call i n prev =
     (case find (\<lambda>tc. tc_id tc = i) prev of
        Some _ \<Rightarrow>
          map (\<lambda>tc. if tc_id tc = i then tc\<lparr>args := [], status := Calling\<rparr> else tc) prev
      | None \<Rightarrow>
          prev @ [\<lparr>tc_id = i, name = n, args = [], result = [], status = Calling,
                   expanded = False\<rparr>])"

text \<open>Lines 177-181: the updater of \<^verbatim>\<open>TOOL_CALL_ARGS\<close>.\<close>

definition append_tool_args :: "string \<Rightarrow> string \<Rightarrow> tool_call list \<Rightarrow> tool_call list" where
  "append_tool_args i d prev =
     map (\<lambda>tc. if tc_id tc = i then tc\<lparr>args := args tc @ d\<rparr> else tc) prev"

text \<open>Lines 185-191: the updater of \<^verbatim>\<open>TOOL_CALL_RESULT\<close>.\<close>

definition set_tool_result :: "string \<Rightarrow> string \<Rightarrow> tool_call list \<Rightarrow> tool_call list" where
  "set_tool_result i c prev =
     map (\<lambda>tc. if tc_id tc = i then tc\<lparr>result := c, status := Completed\<rparr> else tc) prev"

text \<open>Lines 205-213: the message appended by \<^verbatim>\<open>RUN_ERROR\<close>.\<close>

definition run_error_message :: "stamp \<Rightarrow> string \<Rightarrow> message" where
  "run_error_message t m =
     \<lparr>msg_id = now t + 2, role = Assistant, content = ''Error: '' @ m, time = hhmm t\<rparr>"

text \<open>
  Lines 126-219: one decoded event.  In the case \<^verbatim>\<open>TEXT_MESSAGE_CONTENT\<close>, line 140
  changes the object \<^verbatim>\<open>assistantMsg\<close>, so the copies of it that are still queued hold the
  new content too, and lines 141-148 queue one more copy, over the last message if that
  has role assistant.
\<close>

fun handle_event :: "clock \<Rightarrow> event \<Rightarrow> exchange \<Rightarrow> exchange" where
  "handle_event clk RUN_STARTED s = s\<lparr>currentStatus := ''processing...''\<rparr>"
| "handle_event clk TEXT_MESSAGE_START s =
     (let s1 = s\<lparr>currentStatus := ''typing...''\<rparr>
      in if \<not> messageAdded s1
         then s1\<lparr>messages := messages s1 @ [assistantMsg s1], messageAdded := True\<rparr>
         else s1)"
| "handle_event clk (TEXT_MESSAGE_CONTENT delta) s =
     (let a = (assistantMsg s)\<lparr>content := content (assistantMsg s) @ delta\<rparr>;
          prev = overwrite a (pending s) (messages s)
      in s\<lparr>assistantMsg := a, messages := replace_last_assistant a prev,
           pending := (if prev \<noteq> [] \<and> role (last prev) = Assistant
                       then pending s @ [length prev - 1] else pending s)\<rparr>)"
| "handle_event clk TEXT_MESSAGE_END s = s\<lparr>currentStatus := ''online''\<rparr>"
| "handle_event clk (TOOL_CALL_START toolCallId toolCallName) s =
     s\<lparr>currentStatus := ''calling '' @ toolCallName @ ''...'',
       toolCalls := start_tool_call toolCallId toolCallName (toolCalls s)\<rparr>"
| "handle_event clk (TOOL_CALL_ARGS toolCallId delta) s =
     s\<lparr>toolCalls := append_tool_args toolCallId delta (toolCalls s)\<rparr>"
| "handle_event clk (TOOL_CALL_RESULT toolCallId c) s =
     s\<lparr>toolCalls := set_tool_result toolCallId c (toolCalls s),
       currentStatus := ''processing results...''\<rparr>"
| "handle_event clk RUN_FINISHED s = s\<lparr>currentStatus := ''online'', isLoading := False\<rparr>"
| "handle_event clk (RUN_ERROR m) s =
     (let s1 = s\<lparr>currentStatus := ''error'', isLoading := False\<rparr>
      in if \<not> messageAdded s1
         then s1\<lparr>messages := messages s1 @ [run_error_message (clk (tick s1)) m],
                 tick := Suc (tick s1)\<rparr>
         else s1)"
| "handle_event clk (UNKNOWN t) s = s"

text \<open>React runs the queued updaters: no copy of the object is outstanding after it.\<close>

definition render :: "exchange \<Rightarrow> exchange" where
  "render s = s\<lparr>pending := []\<rparr>"

text \<open>What follows the handling of a decoded event, under the schedule \<open>sched\<close>.\<close>

definition after_event :: "schedule \<Rightarrow> exchange \<Rightarrow> exchange" where
  "after_event sched s = (if sched (seen s) then render s else s)\<lparr>seen := Suc (seen s)\<rparr>"

text \<open>A sequence of decoded events, handled in arrival order.\<close>

fun handle_events :: "clock \<Rightarrow> schedule \<Rightarrow> event list \<Rightarrow> exchange \<Rightarrow> exchange" where
  "handle_events clk sched [] s = s"
| "handle_events clk sched (e # es) s =
     handle_events clk sched es (after_event sched (handle_event clk e s))"

text \<open>The deltas of the \<^verbatim>\<open>TEXT_MESSAGE_CONTENT\<close> events of a sequence, in arrival order.\<close>

fun text_deltas :: "event list \<Rightarrow> string list" where
  "text_deltas [] = []"
| "text_deltas (TEXT_MESSAGE_CONTENT d # es) = d # text_deltas es"
| "text_deltas (_ # es) = text_deltas es"

text \<open>The deltas of the \<^verbatim>\<open>TOOL_CALL_ARGS\<close> events addressed to one id, in arrival order.\<close>

fun args_deltas :: "string \<Rightarrow> event list \<Rightarrow> string list" where
  "args_deltas i [] = []"
| "args_deltas i (TOOL_CALL_ARGS j d # es) =
     (if j = i then d # args_deltas i es else args_deltas i es)"
| "args_deltas i (_ # es) = args_deltas i es"

fun is_tool_call_args :: "event \<Rightarrow> bool" where
  "is_tool_call_args (TOOL_CALL_ARGS _ _) = True"
| "is_tool_call_args _ = False"

section \<open>The frame splitter and the read loop\<close>

text \<open>\<^verbatim>\<open>buffer.split("\n")\<close>: the pieces between line breaks; never the empty list.\<close>

fun split_nl :: "string \<Rightarrow> string list" where
  "split_nl [] = [[]]"
| "split_nl (c # cs) =
     (if c = CHR 0x0A then [] # split_nl cs
      else (case split_nl cs of [] \<Rightarrow> [[c]] | p # ps \<Rightarrow> (c # p) # ps))"

text \<open>
  Lines 116-117: \<^verbatim>\<open>parts = buffer.split("\n"); buffer = parts.pop() || ""\<close>.
  \<^verbatim>\<open>pop\<close> removes the last element and returns it (\<^verbatim>\<open>undefined\<close> on the empty
  array, which \<^verbatim>\<open>|| ""\<close> turns into the empty string).  The result is the array that is
  left and the new buffer.
\<close>

definition split_buffer :: "string \<Rightarrow> string list \<times> string" where
  "split_buffer buffer =
     (let parts = split_nl buffer
      in if parts = [] then ([], []) else (butlast parts, last parts))"

text \<open>
  The event decoder \<^verbatim>\<open>JSON.parse\<close> is a parameter \<open>parse\<close>: \<open>None\<close> when the payload
  does not parse (the inner \<^verbatim>\<open>catch\<close> of line 220 skips the frame).
\<close>

type_synonym decoder = "string \<Rightarrow> event option"

text \<open>Lines 120-223: one frame.\<close>

definition handle_part :: "decoder \<Rightarrow> clock \<Rightarrow> schedule \<Rightarrow> string \<Rightarrow> exchange \<Rightarrow> exchange" where
  "handle_part parse clk sched part s =
     (if take 6 part = ''data: ''
      then (case parse (drop 6 part) of
              Some ev \<Rightarrow> after_event sched (handle_event clk ev s)
            | None \<Rightarrow> s)
      else s)"

text \<open>Line 119: \<^verbatim>\<open>for (const part of parts)\<close>.\<close>

fun handle_parts :: "decoder \<Rightarrow> clock \<Rightarrow> schedule \<Rightarrow> string list \<Rightarrow> exchange \<Rightarrow> exchange" where
  "handle_parts parse clk sched [] s = s"
| "handle_parts parse clk sched (p # ps) s =
     handle_parts parse clk sched ps (handle_part parse clk sched p s)"

text \<open>
  Lines 110-225: the read loop, over the chunks of decoded text that the successive
  \<^verbatim>\<open>reader.read()\<close> calls deliver before the stream ends.  The result is the buffer and
  the state at the moment the loop is left.
\<close>

fun read_loop ::
  "decoder \<Rightarrow> clock \<Rightarrow> schedule \<Rightarrow> string list \<Rightarrow> string \<times> exchange \<Rightarrow> string \<times> exchange" where
  "read_loop parse clk sched [] (buffer, s) = (buffer, s)"
| "read_loop parse clk sched (chunk # chunks) (buffer, s) =
     (case split_buffer (buffer @ chunk) of
        (parts, buffer') \<Rightarrow>
          read_loop parse clk sched chunks (buffer', handle_parts parse clk sched parts s))"

text \<open>
  The frame splitter alone: the frames the loop yields for a sequence of chunks, and the
  buffer it is left with.
\<close>

fun split_frames :: "string list \<Rightarrow> string \<Rightarrow> string list \<times> string" where
  "split_frames [] buffer = ([], buffer)"
| "split_frames (chunk # chunks) buffer =
     (case split_buffer (buffer @ chunk) of
        (parts, buffer') \<Rightarrow>
          (case split_frames chunks buffer' of (frames, b) \<Rightarrow> (parts @ frames, b)))"

section \<open>\<^verbatim>\<open>sendMessage\<close>\<close>

text \<open>
  \<^verbatim>\<open>String.prototype.trim\<close> removes white space and line terminators at both ends.
  Of the characters a \<open>char\<close> can be, these are: tab, line feed, vertical tab, form feed,
  carriage return, space and no-break space.
\<close>

definition is_ws :: "char \<Rightarrow> bool" where
  "is_ws c \<longleftrightarrow> c \<in> set [CHR 0x09, CHR 0x0A, CHR 0x0B, CHR 0x0C, CHR 0x0D, CHR 0x20, CHR 0xA0]"

definition trim :: "string \<Rightarrow> string" where
  "trim s = rev (dropWhile is_ws (rev (dropWhile is_ws s)))"

text \<open>
  The transport.  \<open>fetch\<close> maps the prompt of the request to \<open>None\<close> when the promise
  of \<^verbatim>\<open>fetch\<close> rejects, and to the response otherwise.  A body is the chunks of decoded
  text its reader delivers and the way the stream ends: \<^verbatim>\<open>done\<close>, or a rejected
  \<^verbatim>\<open>reader.read()\<close>.
\<close>

datatype stream_end = Done | ReadFailed

record response =
  ok :: bool
  body :: "(string list \<times> stream_end) option"

type_synonym transport = "string \<Rightarrow> response option"

text \<open>
  Lines 99-108: the closure variables of an exchange, with the blank slot \<open>a\<close>.  The user
  message takes clock reading 0 and the blank slot (or the failure message of a request
  that fails before its stream is read) reading 1, so the counter starts at 2.
  \<open>page_of\<close> gives back the state cells of the page.
\<close>

definition begin_exchange :: "message \<Rightarrow> chat_state \<Rightarrow> exchange" where
  "begin_exchange a s =
     \<lparr>messages = messages s, input = input s, isLoading = isLoading s,
      currentStatus = currentStatus s, toolCalls = toolCalls s,
      userHasScrolled = userHasScrolled s, isNearBottom = isNearBottom s,
      assistantMsg = a, messageAdded = False, tick = 2, pending = [], seen = 0\<rparr>"

definition page_of :: "exchange \<Rightarrow> chat_state" where
  "page_of x =
     \<lparr>messages = messages x, input = input x, isLoading = isLoading x,
      currentStatus = currentStatus x, toolCalls = toolCalls x,
      userHasScrolled = userHasScrolled x, isNearBottom = isNearBottom x\<rparr>"

definition failure_text :: string where
  "failure_text = ''Sorry, an error occurred. Please try again.''"

text \<open>Lines 226-237: the \<^verbatim>\<open>catch\<close> block.\<close>

definition catch_block :: "stamp \<Rightarrow> chat_state \<Rightarrow> chat_state" where
  "catch_block t s =
     s\<lparr>messages := messages s @
          [\<lparr>msg_id = now t + 2, role = Assistant, content = failure_text, time = hhmm t\<rparr>],
       currentStatus := ''error''\<rparr>"

text \<open>Lines 238-241: the \<^verbatim>\<open>finally\<close> block.\<close>

definition finally_block :: "chat_state \<Rightarrow> chat_state" where
  "finally_block s = s\<lparr>isLoading := False, currentStatus := ''online''\<rparr>"

text \<open>Lines 82-237: the \<^verbatim>\<open>try\<close> block with its \<^verbatim>\<open>catch\<close>.\<close>

definition try_block ::
  "decoder \<Rightarrow> clock \<Rightarrow> schedule \<Rightarrow> response option \<Rightarrow> chat_state \<Rightarrow> chat_state" where
  "try_block parse clk sched resp s =
     (case resp of
        None \<Rightarrow> catch_block (clk 1) s
      | Some r \<Rightarrow>
          (case body r of
             None \<Rightarrow> catch_block (clk 1) s
           | Some (chunks, ending) \<Rightarrow>
               if \<not> ok r then catch_block (clk 1) s
               else
                 (let a = \<lparr>msg_id = now (clk 1) + 1, role = Assistant, content = [],
                           time = hhmm (clk 1)\<rparr>
                  in case read_loop parse clk sched chunks ([], begin_exchange a s) of
                       (buffer, x) \<Rightarrow>
                         (case ending of
                            Done \<Rightarrow> page_of x
                          | ReadFailed \<Rightarrow> catch_block (clk (tick x)) (page_of x)))))"

text \<open>
  Lines 62-242.  The result is the state of the page once every queued updater has run,
  and the prompt of the request that was issued, if one was.
\<close>

definition sendMessage ::
  "decoder \<Rightarrow> clock \<Rightarrow> schedule \<Rightarrow> transport \<Rightarrow> chat_state \<Rightarrow> chat_state \<times> string option" where
  "sendMessage parse clk sched fetch s =
     (if trim (input s) = [] \<or> isLoading s then (s, None)
      else
        (let userMsg = \<lparr>msg_id = now (clk 0), role = User, content = trim (input s),
                         time = hhmm (clk 0)\<rparr>;
             userPrompt = trim (input s);
             s1 = s\<lparr>messages := messages s @ [userMsg], input := [], isLoading := True,
                    currentStatus := ''thinking...'', toolCalls := [],
                    userHasScrolled := False, isNearBottom := True\<rparr>
         in (finally_block (try_block parse clk sched (fetch userPrompt) s1), Some userPrompt)))"

text \<open>A response whose body delivers the chunks \<open>cs\<close> and then ends as \<open>e\<close>.\<close>

definition stream_of :: "string list \<Rightarrow> stream_end \<Rightarrow> transport" where
  "stream_of cs e = (\<lambda>userPrompt. Some \<lparr>ok = True, body = Some (cs, e)\<rparr>)"

text \<open>
  The outcomes of the transport that reach the \<^verbatim>\<open>catch\<close> block: \<^verbatim>\<open>fetch\<close> rejects
  (connection refused), the response is not a success or has no body (line 92), or a
  \<^verbatim>\<open>reader.read()\<close> rejects (stream error).
\<close>

definition transport_failure :: "response option \<Rightarrow> bool" where
  "transport_failure resp =
     (case resp of
        None \<Rightarrow> True
      | Some r \<Rightarrow>
          (case body r of
             None \<Rightarrow> True
           | Some (chunks, ending) \<Rightarrow> (if ok r then ending = ReadFailed else True)))"

section \<open>Invariant of an exchange\<close>

text \<open>
  The blank slot \<^verbatim>\<open>assistantMsg\<close> has role assistant, and once it has been appended
  (\<^verbatim>\<open>messageAdded\<close>) it is the last message of the transcript.
\<close>

definition slot_inv :: "exchange \<Rightarrow> bool" where
  "slot_inv s \<longleftrightarrow>
     role (assistantMsg s) = Assistant \<and>
     (messageAdded s \<longrightarrow> messages s \<noteq> [] \<and> last (messages s) = assistantMsg s)"

text \<open>
  A copy of the object is queued only over a message of role assistant, and the exchange
  appends only such messages: while a copy is outstanding the last message has role
  assistant.
\<close>

definition queue_inv :: "exchange \<Rightarrow> bool" where
  "queue_inv s \<longleftrightarrow>
     role (assistantMsg s) = Assistant \<and>
     (pending s \<noteq> [] \<longrightarrow> messages s \<noteq> [] \<and> role (last (messages s)) = Assistant)"

section \<open>Example inputs\<close>

definition demo_clock :: clock where
  "demo_clock n = \<lparr>now = 1000 + n, hhmm = ''11:00 AM''\<rparr>"

text \<open>
  Two schedules: the queued updaters run only when the exchange is over, or they run
  after every event.
\<close>

definition batched :: schedule where
  "batched n = False"

definition unbatched :: schedule where
  "unbatched n = True"

text \<open>A decoder that knows three payloads and rejects every other one.\<close>

definition demo_parse :: decoder where
  \<open>demo_parse p =
     (if p = ''{"type":"TEXT_MESSAGE_START"}'' then Some TEXT_MESSAGE_START
      else if p = ''{"type":"TEXT_MESSAGE_CONTENT","delta":"Hi"}''
        then Some (TEXT_MESSAGE_CONTENT ''Hi'')
      else if p = ''{"type":"RUN_ERROR","message":"boom"}'' then Some (RUN_ERROR ''boom'')
      else None)\<close>

text \<open>The page before a submission: a greeting in the transcript, a prompt typed.\<close>

definition demo_page :: chat_state where
  "demo_page =
     \<lparr>messages = [\<lparr>msg_id = 1, role = Assistant, content = ''Hello!'', time = ''11:00 AM''\<rparr>],
      input = '' hello '', isLoading = False, currentStatus = ''online'', toolCalls = [],
      userHasScrolled = False, isNearBottom = True\<rparr>"

text \<open>The exchange that \<^verbatim>\<open>sendMessage\<close> starts from \<open>demo_page\<close>, before the first chunk.\<close>

definition demo_exchange :: exchange where
  "demo_exchange =
     \<lparr>messages = [\<lparr>msg_id = 1, role = Assistant, content = ''Hello!'', time = ''11:00 AM''\<rparr>,
                  \<lparr>msg_id = 1000, role = User, content = ''hello'', time = ''11:00 AM''\<rparr>],
      input = [], isLoading = True, currentStatus = ''thinking...'', toolCalls = [],
      userHasScrolled = False, isNearBottom = True,
      assistantMsg = \<lparr>msg_id = 1002, role = Assistant, content = [], time = ''11:00 AM''\<rparr>,
      messageAdded = False, tick = 2, pending = [], seen = 0\<rparr>"

definition demo_events :: "event list" where
  "demo_events =
     [RUN_STARTED, TEXT_MESSAGE_START, TEXT_MESSAGE_CONTENT ''Hi'',
      TOOL_CALL_START ''1'' ''search'', TEXT_MESSAGE_CONTENT '' there'',
      TEXT_MESSAGE_END, RUN_FINISHED]"

text \<open>A registry with one completed call.\<close>

definition demo_registry :: "tool_call list" where
  "demo_registry =
     [\<lparr>tc_id = ''1'', name = ''search'', args = ''q=cats'', result = ''3 results'',
       status = Completed, expanded = True\<rparr>,
      \<lparr>tc_id = ''2'', name = ''fetch'', args = ''u='', result = [],
       status = Calling, expanded = False\<rparr>]"

section \<open>Facts about the reducer\<close>

lemma length_overwrite: "length (overwrite m ps prev) = length prev"
  unfolding overwrite_def by (induction ps arbitrary: prev) simp_all

lemma overwrite_Nil: "overwrite m [] prev = prev"
  by (simp add: overwrite_def)

lemma overwrite_snoc: "overwrite m (ps @ [i]) prev = (overwrite m ps prev)[i := m]"
  by (simp add: overwrite_def)

lemma overwrite_eq_Nil: "overwrite m ps prev = [] \<longleftrightarrow> prev = []"
  using length_overwrite [of m ps prev] by (metis length_0_conv)

lemma role_last_overwrite:
  "prev \<noteq> [] \<Longrightarrow> role m = Assistant \<Longrightarrow> role (last prev) = Assistant \<Longrightarrow>
     role (last (overwrite m ps prev)) = Assistant"
proof (induction ps arbitrary: prev)
  case Nil
  then show ?case by (simp add: overwrite_def)
next
  case (Cons i ps)
  have "prev[i := m] \<noteq> []" using Cons.prems(1) by simp
  moreover have "role (last (prev[i := m])) = Assistant"
    using Cons.prems by (simp add: last_list_update)
  ultimately have "role (last (overwrite m ps (prev[i := m]))) = Assistant"
    using Cons.prems(2) by (intro Cons.IH)
  then show ?case by (simp add: overwrite_def)
qed

lemma after_event_fields:
  "messages (after_event sched s) = messages s"
  "assistantMsg (after_event sched s) = assistantMsg s"
  "messageAdded (after_event sched s) = messageAdded s"
  "toolCalls (after_event sched s) = toolCalls s"
  "currentStatus (after_event sched s) = currentStatus s"
  "tick (after_event sched s) = tick s"
  by (simp_all add: after_event_def render_def)

lemma handle_event_assistantMsg:
  "assistantMsg (handle_event clk e s) =
     (assistantMsg s)\<lparr>content := content (assistantMsg s) @ concat (text_deltas [e])\<rparr>"
  by (cases e) (simp_all add: Let_def)

lemma handle_events_assistantMsg:
  "assistantMsg (handle_events clk sched es s) =
     (assistantMsg s)\<lparr>content := content (assistantMsg s) @ concat (text_deltas es)\<rparr>"
proof (induction es arbitrary: s)
  case Nil
  show ?case by simp
next
  case (Cons e es)
  show ?case by (cases e) (simp_all add: Cons.IH Let_def after_event_fields)
qed

lemma handle_event_messageAdded:
  "messageAdded (handle_event clk e s) \<longleftrightarrow> messageAdded s \<or> e = TEXT_MESSAGE_START"
  by (cases e) (simp_all add: Let_def)

lemma handle_events_messageAdded:
  "messageAdded (handle_events clk sched es s) \<longleftrightarrow>
     messageAdded s \<or> TEXT_MESSAGE_START \<in> set es"
  by (induction es arbitrary: s) (auto simp: handle_event_messageAdded after_event_fields)

lemma replace_last_assistant_last:
  "prev \<noteq> [] \<Longrightarrow> role (last prev) = Assistant \<Longrightarrow>
     replace_last_assistant m prev = butlast prev @ [m]"
  unfolding replace_last_assistant_def
  by (cases prev rule: rev_cases) simp_all

lemma replace_last_assistant_other:
  "prev = [] \<or> role (last prev) \<noteq> Assistant \<Longrightarrow> replace_last_assistant m prev = prev"
  unfolding replace_last_assistant_def by auto

lemma length_replace_last_assistant:
  "length (replace_last_assistant m prev) = length prev"
  unfolding replace_last_assistant_def by simp

lemma slot_inv_handle_event:
  assumes "slot_inv s"
  shows "slot_inv (handle_event clk e s)"
proof (cases e)
  case (TEXT_MESSAGE_CONTENT d)
  let ?a = "(assistantMsg s)\<lparr>content := content (assistantMsg s) @ d\<rparr>"
  let ?prev = "overwrite ?a (pending s) (messages s)"
  have role: "role ?a = Assistant" using assms by (simp add: slot_inv_def)
  show ?thesis
  proof (cases "messageAdded s")
    case True
    then have ne: "messages s \<noteq> []" and "role (last (messages s)) = Assistant"
      using assms by (simp_all add: slot_inv_def)
    then have "?prev \<noteq> []" "role (last ?prev) = Assistant"
      using role by (simp_all add: overwrite_eq_Nil role_last_overwrite)
    then have "replace_last_assistant ?a ?prev = butlast ?prev @ [?a]"
      by (rule replace_last_assistant_last)
    then show ?thesis
      using role by (simp add: TEXT_MESSAGE_CONTENT slot_inv_def Let_def)
  next
    case False
    then show ?thesis
      using role by (simp add: TEXT_MESSAGE_CONTENT slot_inv_def Let_def)
  qed
qed (use assms in \<open>auto simp: slot_inv_def Let_def\<close>)

lemma slot_inv_after_event: "slot_inv (after_event sched s) = slot_inv s"
  by (simp add: slot_inv_def after_event_fields)

lemma slot_inv_handle_events: "slot_inv s \<Longrightarrow> slot_inv (handle_events clk sched es s)"
  by (induction es arbitrary: s) (simp_all add: slot_inv_handle_event slot_inv_after_event)

lemma queue_inv_handle_event:
  assumes "queue_inv s"
  shows "queue_inv (handle_event clk e s)"
proof (cases e)
  case (TEXT_MESSAGE_CONTENT d)
  let ?a = "(assistantMsg s)\<lparr>content := content (assistantMsg s) @ d\<rparr>"
  let ?prev = "overwrite ?a (pending s) (messages s)"
  have role: "role ?a = Assistant" using assms by (simp add: queue_inv_def)
  show ?thesis
  proof (cases "?prev \<noteq> [] \<and> role (last ?prev) = Assistant")
    case True
    then have "replace_last_assistant ?a ?prev = butlast ?prev @ [?a]"
      by (simp add: replace_last_assistant_last)
    then show ?thesis
      using role True by (simp add: TEXT_MESSAGE_CONTENT queue_inv_def Let_def)
  next
    case False
    have "pending s = []"
    proof (rule ccontr)
      assume "pending s \<noteq> []"
      then have "messages s \<noteq> []" "role (last (messages s)) = Assistant"
        using assms by (simp_all add: queue_inv_def)
      then have "?prev \<noteq> []" "role (last ?prev) = Assistant"
        using role by (simp_all add: overwrite_eq_Nil role_last_overwrite)
      with False show False by simp
    qed
    with False show ?thesis
      using role by (auto simp: TEXT_MESSAGE_CONTENT queue_inv_def Let_def overwrite_Nil)
  qed
qed (use assms in \<open>auto simp: queue_inv_def Let_def run_error_message_def\<close>)

lemma queue_inv_after_event: "queue_inv s \<Longrightarrow> queue_inv (after_event sched s)"
  by (simp add: queue_inv_def after_event_def render_def)

lemma queue_inv_handle_events: "queue_inv s \<Longrightarrow> queue_inv (handle_events clk sched es s)"
  by (induction es arbitrary: s) (simp_all add: queue_inv_handle_event queue_inv_after_event)

text \<open>
  When no copy is outstanding, the updater of lines 141-148 overwrites the last message
  with the object as the event leaves it.
\<close>

lemma content_event_after_render:
  "pending s = [] \<Longrightarrow>
   messages (handle_event clk (TEXT_MESSAGE_CONTENT d) s) =
     replace_last_assistant ((assistantMsg s)\<lparr>content := content (assistantMsg s) @ d\<rparr>)
       (messages s)"
  by (simp add: Let_def overwrite_Nil)

section \<open>Accumulation of the assistant text\<close>

text \<open>
  Claim C1.  Take an exchange in its initial state (the blank slot not yet appended, its
  content empty) and any sequence of decoded events that contains
  \<^verbatim>\<open>TEXT_MESSAGE_START\<close>.  After the sequence, whenever the queued updaters run, the
  last message of the transcript is the exchange's assistant message, and its content is
  the concatenation of the deltas of the \<^verbatim>\<open>TEXT_MESSAGE_CONTENT\<close> events of the
  sequence, in arrival order, whatever other events stand between them.
\<close>

theorem content_is_concatenation_of_deltas:
  assumes "TEXT_MESSAGE_START \<in> set es"
    and "\<not> messageAdded s"
    and "role (assistantMsg s) = Assistant"
    and "content (assistantMsg s) = []"
  shows "messages (handle_events clk sched es s) \<noteq> [] \<and>
         last (messages (handle_events clk sched es s)) =
           (assistantMsg s)\<lparr>content := concat (text_deltas es)\<rparr>"
proof -
  have "slot_inv s" using assms by (simp add: slot_inv_def)
  then have "slot_inv (handle_events clk sched es s)" by (rule slot_inv_handle_events)
  moreover have "messageAdded (handle_events clk sched es s)"
    using assms(1) by (simp add: handle_events_messageAdded)
  ultimately show ?thesis
    using assms(4) by (simp add: slot_inv_def handle_events_assistantMsg)
qed

theorem content_is_concatenation_of_deltas_witness:
  "TEXT_MESSAGE_START \<in> set demo_events \<and> \<not> messageAdded demo_exchange \<and>
   role (assistantMsg demo_exchange) = Assistant \<and> content (assistantMsg demo_exchange) = [] \<and>
   text_deltas demo_events = [''Hi'', '' there''] \<and>
   last (messages (handle_events demo_clock batched demo_events demo_exchange)) =
     \<lparr>msg_id = 1002, role = Assistant, content = ''Hi there'', time = ''11:00 AM''\<rparr> \<and>
   last (messages (handle_events demo_clock unbatched demo_events demo_exchange)) =
     \<lparr>msg_id = 1002, role = Assistant, content = ''Hi there'', time = ''11:00 AM''\<rparr>"
proof -
  have start: "TEXT_MESSAGE_START \<in> set demo_events"
    and deltas: "text_deltas demo_events = [''Hi'', '' there'']"
    by (simp_all add: demo_events_def)
  have fresh: "\<not> messageAdded demo_exchange" "role (assistantMsg demo_exchange) = Assistant"
    "content (assistantMsg demo_exchange) = []"
    and slot: "assistantMsg demo_exchange =
      \<lparr>msg_id = 1002, role = Assistant, content = [], time = ''11:00 AM''\<rparr>"
    by (simp_all add: demo_exchange_def)
  show ?thesis
    using content_is_concatenation_of_deltas [OF start fresh, of demo_clock batched]
      content_is_concatenation_of_deltas [OF start fresh, of demo_clock unbatched]
    by (simp add: start deltas fresh slot)
qed

section \<open>\<^verbatim>\<open>RUN_ERROR\<close>\<close>

text \<open>
  Claim C4.  In an exchange, after any sequence of events, a \<^verbatim>\<open>RUN_ERROR\<close> event sets
  the status to \<^verbatim>\<open>"error"\<close>.  If no \<^verbatim>\<open>TEXT_MESSAGE_START\<close> came before it, it appends
  exactly one message, of role assistant, whose content is \<^verbatim>\<open>"Error: "\<close> followed by the
  event's error text; if one came before, the transcript is left as it is.
\<close>

theorem run_error_appends_once:
  assumes "\<not> messageAdded s0"
  shows "currentStatus (handle_event clk (RUN_ERROR m) (handle_events clk sched es s0)) = ''error'' \<and>
         (TEXT_MESSAGE_START \<notin> set es \<longrightarrow>
            messages (handle_event clk (RUN_ERROR m) (handle_events clk sched es s0)) =
              messages (handle_events clk sched es s0) @
                [\<lparr>msg_id = now (clk (tick (handle_events clk sched es s0))) + 2, role = Assistant,
                  content = ''Error: '' @ m,
                  time = hhmm (clk (tick (handle_events clk sched es s0)))\<rparr>]) \<and>
         (TEXT_MESSAGE_START \<in> set es \<longrightarrow>
            messages (handle_event clk (RUN_ERROR m) (handle_events clk sched es s0)) =
              messages (handle_events clk sched es s0))"
  using assms by (simp add: Let_def handle_events_messageAdded run_error_message_def)

theorem run_error_appends_once_witness:
  "\<not> messageAdded demo_exchange \<and>
   TEXT_MESSAGE_START \<notin> set [RUN_STARTED] \<and>
   currentStatus (handle_event demo_clock (RUN_ERROR ''boom'')
      (handle_events demo_clock batched [RUN_STARTED] demo_exchange)) = ''error'' \<and>
   messages (handle_event demo_clock (RUN_ERROR ''boom'')
      (handle_events demo_clock batched [RUN_STARTED] demo_exchange)) =
     messages demo_exchange @
       [\<lparr>msg_id = 1004, role = Assistant, content = ''Error: boom'', time = ''11:00 AM''\<rparr>] \<and>
   TEXT_MESSAGE_START \<in> set [RUN_STARTED, TEXT_MESSAGE_START] \<and>
   messages (handle_event demo_clock (RUN_ERROR ''boom'')
      (handle_events demo_clock batched [RUN_STARTED, TEXT_MESSAGE_START] demo_exchange)) =
     messages demo_exchange @
       [\<lparr>msg_id = 1002, role = Assistant, content = [], time = ''11:00 AM''\<rparr>]"
proof -
  have fresh: "\<not> messageAdded demo_exchange"
    by (simp add: demo_exchange_def)
  have before: "tick (handle_events demo_clock batched [RUN_STARTED] demo_exchange) = 2"
    "messages (handle_events demo_clock batched [RUN_STARTED] demo_exchange) =
       messages demo_exchange"
    by (simp_all add: demo_exchange_def after_event_def batched_def)
  have started:
    "messages (handle_events demo_clock batched [RUN_STARTED, TEXT_MESSAGE_START] demo_exchange) =
       messages demo_exchange @
         [\<lparr>msg_id = 1002, role = Assistant, content = [], time = ''11:00 AM''\<rparr>]"
    by (simp add: demo_exchange_def after_event_def batched_def)
  have "now (demo_clock 2) + 2 = 1004" "hhmm (demo_clock 2) = ''11:00 AM''"
    by (simp_all add: demo_clock_def)
  then show ?thesis
    using run_error_appends_once [OF fresh, of demo_clock "''boom''" batched "[RUN_STARTED]"]
      run_error_appends_once [OF fresh, of demo_clock "''boom''" batched
        "[RUN_STARTED, TEXT_MESSAGE_START]"]
    by (simp only: before started fresh) simp
qed

section \<open>Facts about the tool-call registry\<close>

lemma find_tc_id_None: "find (\<lambda>tc. tc_id tc = i) prev = None \<longleftrightarrow> i \<notin> tc_id ` set prev"
  by (auto simp: find_None_iff)

lemma map_tc_id_start_tool_call:
  "map tc_id (start_tool_call i n prev) =
     (if i \<in> tc_id ` set prev then map tc_id prev else map tc_id prev @ [i])"
proof (cases "find (\<lambda>tc. tc_id tc = i) prev")
  case None
  then have "i \<notin> tc_id ` set prev"
    using find_tc_id_None [of i prev] by simp
  with None show ?thesis by (simp add: start_tool_call_def)
next
  case (Some a)
  then have "i \<in> tc_id ` set prev"
    using find_tc_id_None [of i prev] by simp
  with Some show ?thesis
    by (simp add: start_tool_call_def comp_def if_distrib [of tc_id] cong: if_cong)
qed

lemma map_tc_id_append_tool_args: "map tc_id (append_tool_args i d prev) = map tc_id prev"
  by (simp add: append_tool_args_def comp_def if_distrib [of tc_id] cong: if_cong)

lemma map_tc_id_set_tool_result: "map tc_id (set_tool_result i c prev) = map tc_id prev"
  by (simp add: set_tool_result_def comp_def if_distrib [of tc_id] cong: if_cong)

lemma distinct_handle_event:
  "distinct (map tc_id (toolCalls s)) \<Longrightarrow> distinct (map tc_id (toolCalls (handle_event clk e s)))"
  by (cases e)
    (simp_all add: Let_def map_tc_id_start_tool_call map_tc_id_append_tool_args
      map_tc_id_set_tool_result)

lemma distinct_handle_events:
  "distinct (map tc_id (toolCalls s)) \<Longrightarrow> distinct (map tc_id (toolCalls (handle_events clk sched es s)))"
  by (induction es arbitrary: s) (simp_all add: distinct_handle_event after_event_fields)

text \<open>
  Claim C6.  If the registry has no two entries with the same id (it is empty when an
  exchange starts), it has none after any sequence of decoded events.  A
  \<^verbatim>\<open>TOOL_CALL_START\<close> whose id is present resets the args of that entry to empty and its
  status to calling, in place; one whose id is absent appends a new entry with empty args
  and result and status calling.
\<close>

theorem registry_ids_unique:
  assumes "distinct (map tc_id (toolCalls s))"
  shows "distinct (map tc_id (toolCalls (handle_events clk sched es s))) \<and>
         toolCalls (handle_event clk (TOOL_CALL_START i n) s) =
           (if i \<in> tc_id ` set (toolCalls s)
            then map (\<lambda>tc. if tc_id tc = i then tc\<lparr>args := [], status := Calling\<rparr> else tc)
                   (toolCalls s)
            else toolCalls s @
                   [\<lparr>tc_id = i, name = n, args = [], result = [], status = Calling,
                     expanded = False\<rparr>])"
proof -
  have "toolCalls (handle_event clk (TOOL_CALL_START i n) s) =
          start_tool_call i n (toolCalls s)"
    by simp
  moreover have "start_tool_call i n (toolCalls s) =
           (if i \<in> tc_id ` set (toolCalls s)
            then map (\<lambda>tc. if tc_id tc = i then tc\<lparr>args := [], status := Calling\<rparr> else tc)
                   (toolCalls s)
            else toolCalls s @
                   [\<lparr>tc_id = i, name = n, args = [], result = [], status = Calling,
                     expanded = False\<rparr>])"
    using find_tc_id_None [of i "toolCalls s"]
    by (cases "find (\<lambda>tc. tc_id tc = i) (toolCalls s)") (simp_all add: start_tool_call_def)
  ultimately show ?thesis
    using distinct_handle_events [OF assms] by simp
qed

theorem registry_ids_unique_witness:
  "distinct (map tc_id (toolCalls demo_exchange)) \<and>
   map tc_id (toolCalls (handle_events demo_clock batched
      [TOOL_CALL_START ''1'' ''search'', TOOL_CALL_ARGS ''1'' ''q=cats'',
       TOOL_CALL_START ''2'' ''fetch'', TOOL_CALL_START ''1'' ''lookup''] demo_exchange)) =
     [''1'', ''2''] \<and>
   distinct (map tc_id (toolCalls (handle_events demo_clock batched
      [TOOL_CALL_START ''1'' ''search'', TOOL_CALL_ARGS ''1'' ''q=cats'',
       TOOL_CALL_START ''2'' ''fetch'', TOOL_CALL_START ''1'' ''lookup''] demo_exchange))) \<and>
   toolCalls (handle_event demo_clock (TOOL_CALL_START ''1'' ''search'') demo_exchange) =
     [\<lparr>tc_id = ''1'', name = ''search'', args = [], result = [], status = Calling,
       expanded = False\<rparr>]"
  using registry_ids_unique [of demo_exchange demo_clock batched
      "[TOOL_CALL_START ''1'' ''search'', TOOL_CALL_ARGS ''1'' ''q=cats'',
        TOOL_CALL_START ''2'' ''fetch'', TOOL_CALL_START ''1'' ''lookup'']" "''1''" "''search''"]
  by (simp add: demo_exchange_def start_tool_call_def append_tool_args_def after_event_def
      batched_def)

lemma append_tool_args_unknown:
  "i \<notin> tc_id ` set prev \<Longrightarrow> append_tool_args i d prev = prev"
  unfolding append_tool_args_def by (induction prev) auto

lemma handle_events_args_only:
  "list_all is_tool_call_args es \<Longrightarrow>
   toolCalls (handle_events clk sched es s) =
     map (\<lambda>tc. tc\<lparr>args := args tc @ concat (args_deltas (tc_id tc) es)\<rparr>) (toolCalls s)"
proof (induction es arbitrary: s)
  case Nil
  show ?case by (simp add: map_idI)
next
  case (Cons e es)
  from Cons.prems obtain j d where e: "e = TOOL_CALL_ARGS j d"
    by (cases e) simp_all
  from Cons.prems have "list_all is_tool_call_args es" by simp
  then show ?case
    by (simp add: Cons.IH e append_tool_args_def comp_def after_event_fields)
qed

text \<open>
  Claim C7.  After any sequence of \<^verbatim>\<open>TOOL_CALL_ARGS\<close> events, however the ids
  interleave, every entry of the registry has as args its former args followed by the
  deltas addressed to its own id, in arrival order, and is otherwise as it was.  A
  \<^verbatim>\<open>TOOL_CALL_ARGS\<close> event whose id is not in the registry leaves the registry as it is.
\<close>

theorem tool_args_no_cross_contamination:
  "(list_all is_tool_call_args es \<longrightarrow>
     toolCalls (handle_events clk sched es s) =
       map (\<lambda>tc. tc\<lparr>args := args tc @ concat (args_deltas (tc_id tc) es)\<rparr>) (toolCalls s)) \<and>
   (i \<notin> tc_id ` set (toolCalls s) \<longrightarrow>
     toolCalls (handle_event clk (TOOL_CALL_ARGS i d) s) = toolCalls s)"
  by (simp add: handle_events_args_only append_tool_args_unknown)

text \<open>
  Claim C10.  A \<^verbatim>\<open>TOOL_CALL_START\<close> event whose id is in the registry leaves the name
  and the result of every entry as they were: the name the event carries is not used,
  and a result set before survives the restart.
\<close>

theorem restart_keeps_name_and_result:
  assumes "i \<in> tc_id ` set (toolCalls s)"
  shows "map name (toolCalls (handle_event clk (TOOL_CALL_START i n) s)) = map name (toolCalls s) \<and>
         map result (toolCalls (handle_event clk (TOOL_CALL_START i n) s)) =
           map result (toolCalls s)"
proof -
  from assms obtain a where "find (\<lambda>tc. tc_id tc = i) (toolCalls s) = Some a"
    using find_tc_id_None [of i "toolCalls s"] by (cases "find (\<lambda>tc. tc_id tc = i) (toolCalls s)") auto
  then show ?thesis
    by (simp add: start_tool_call_def comp_def if_distrib [of name] if_distrib [of result]
        cong: if_cong)
qed


theorem tool_args_no_cross_contamination_witness:
  "list_all is_tool_call_args
     [TOOL_CALL_ARGS ''1'' ''&a'', TOOL_CALL_ARGS ''2'' ''x'', TOOL_CALL_ARGS ''1'' ''&b'',
      TOOL_CALL_ARGS ''3'' ''zzz'', TOOL_CALL_ARGS ''2'' ''y''] \<and>
   map args (toolCalls (handle_events demo_clock batched
     [TOOL_CALL_ARGS ''1'' ''&a'', TOOL_CALL_ARGS ''2'' ''x'', TOOL_CALL_ARGS ''1'' ''&b'',
      TOOL_CALL_ARGS ''3'' ''zzz'', TOOL_CALL_ARGS ''2'' ''y'']
     (demo_exchange\<lparr>toolCalls := demo_registry\<rparr>))) = [''q=cats&a&b'', ''u=xy''] \<and>
   ''3'' \<notin> tc_id ` set (toolCalls (demo_exchange\<lparr>toolCalls := demo_registry\<rparr>)) \<and>
   toolCalls (handle_event demo_clock (TOOL_CALL_ARGS ''3'' ''zzz'')
     (demo_exchange\<lparr>toolCalls := demo_registry\<rparr>)) = demo_registry"
  using tool_args_no_cross_contamination [of
      "[TOOL_CALL_ARGS ''1'' ''&a'', TOOL_CALL_ARGS ''2'' ''x'', TOOL_CALL_ARGS ''1'' ''&b'',
        TOOL_CALL_ARGS ''3'' ''zzz'', TOOL_CALL_ARGS ''2'' ''y'']"
      demo_clock batched "demo_exchange\<lparr>toolCalls := demo_registry\<rparr>" "''3''" "''zzz''"]
  by (simp add: demo_registry_def)

theorem restart_keeps_name_and_result_witness:
  "''1'' \<in> tc_id ` set (toolCalls (demo_exchange\<lparr>toolCalls := demo_registry\<rparr>)) \<and>
   map name (toolCalls (handle_event demo_clock (TOOL_CALL_START ''1'' ''lookup'')
     (demo_exchange\<lparr>toolCalls := demo_registry\<rparr>))) = [''search'', ''fetch''] \<and>
   map result (toolCalls (handle_event demo_clock (TOOL_CALL_START ''1'' ''lookup'')
     (demo_exchange\<lparr>toolCalls := demo_registry\<rparr>))) = [''3 results'', []]"
  using restart_keeps_name_and_result [of "''1''" "demo_exchange\<lparr>toolCalls := demo_registry\<rparr>"
      demo_clock "''lookup''"]
  by (simp add: demo_registry_def)

section \<open>A content delta before the message start\<close>

text \<open>
  When the queued copies run matters: after a \<^verbatim>\<open>RUN_ERROR\<close>, a delta \<^verbatim>\<open>"A"\<close>, the
  message start and a delta \<^verbatim>\<open>"B"\<close>, the message that overwrote the error message holds
  \<^verbatim>\<open>"AB"\<close> if the copies run when all four events have been handled, and \<^verbatim>\<open>"A"\<close> if
  each runs at once.
\<close>

lemma copy_runs_late_example:
  "map content (messages (handle_events demo_clock batched
     [RUN_ERROR ''boom'', TEXT_MESSAGE_CONTENT ''A'', TEXT_MESSAGE_START,
      TEXT_MESSAGE_CONTENT ''B''] demo_exchange)) = [''Hello!'', ''hello'', ''AB'', ''AB'']"
  "map content (messages (handle_events demo_clock unbatched
     [RUN_ERROR ''boom'', TEXT_MESSAGE_CONTENT ''A'', TEXT_MESSAGE_START,
      TEXT_MESSAGE_CONTENT ''B''] demo_exchange)) = [''Hello!'', ''hello'', ''A'', ''AB'']"
  by (simp_all add: demo_exchange_def after_event_def render_def batched_def unbatched_def
      overwrite_def replace_last_assistant_def run_error_message_def Let_def)

text \<open>
  Claim C3 says that a \<^verbatim>\<open>TEXT_MESSAGE_CONTENT\<close> event with no \<^verbatim>\<open>TEXT_MESSAGE_START\<close>
  before it creates the assistant message.  It does not: in an exchange whose stream is
  the single frame of a content delta \<^verbatim>\<open>"Hi"\<close>, the transcript ends as the greeting and
  the user message, and no message holds the delta.
\<close>

theorem content_without_start_counterexample:
  \<open>messages (fst (sendMessage demo_parse demo_clock batched
      (stream_of [''data: {"type":"TEXT_MESSAGE_CONTENT","delta":"Hi"}\<newline>''] Done) demo_page)) =
     [\<lparr>msg_id = 1, role = Assistant, content = ''Hello!'', time = ''11:00 AM''\<rparr>,
      \<lparr>msg_id = 1000, role = User, content = ''hello'', time = ''11:00 AM''\<rparr>] \<and>
   messages (fst (sendMessage demo_parse demo_clock unbatched
      (stream_of [''data: {"type":"TEXT_MESSAGE_CONTENT","delta":"Hi"}\<newline>''] Done) demo_page)) =
     [\<lparr>msg_id = 1, role = Assistant, content = ''Hello!'', time = ''11:00 AM''\<rparr>,
      \<lparr>msg_id = 1000, role = User, content = ''hello'', time = ''11:00 AM''\<rparr>]\<close>
  by (simp add: sendMessage_def demo_page_def trim_def is_ws_def try_block_def split_buffer_def
      begin_exchange_def handle_part_def demo_parse_def demo_clock_def Let_def
      replace_last_assistant_def overwrite_def after_event_def render_def batched_def
      unbatched_def page_of_def finally_block_def stream_of_def)

text \<open>
  Claim C3, amended.  In an exchange, a \<^verbatim>\<open>TEXT_MESSAGE_CONTENT\<close> event with no
  \<^verbatim>\<open>TEXT_MESSAGE_START\<close> before it creates no message: the transcript keeps its length
  and the object \<^verbatim>\<open>assistantMsg\<close> stays unappended.  The delta is appended to the content
  of that object.  If the last message of the transcript does not have role assistant,
  the transcript is left as it is.  If it has, the last message, and every message whose
  queued copy has not run yet, is the object with its new content, and every other
  message is as it was.
\<close>

theorem content_without_start_creates_no_message:
  assumes "\<not> messageAdded s0" and "pending s0 = []" and "role (assistantMsg s0) = Assistant"
    and "TEXT_MESSAGE_START \<notin> set es"
  shows "let s = handle_events clk sched es s0;
             a = (assistantMsg s)\<lparr>content := content (assistantMsg s) @ d\<rparr>;
             s' = handle_event clk (TEXT_MESSAGE_CONTENT d) s
         in length (messages s') = length (messages s) \<and>
            \<not> messageAdded s' \<and>
            assistantMsg s' = a \<and>
            messages s' =
              (if messages s \<noteq> [] \<and> role (last (messages s)) = Assistant
               then overwrite a (pending s @ [length (messages s) - 1]) (messages s)
               else messages s) \<and>
            (messages s \<noteq> [] \<and> role (last (messages s)) = Assistant \<longrightarrow>
               last (messages s') = a)"
proof -
  define s where "s = handle_events clk sched es s0"
  define a where "a = (assistantMsg s)\<lparr>content := content (assistantMsg s) @ d\<rparr>"
  define prev where "prev = overwrite a (pending s) (messages s)"
  have "queue_inv s0" using assms by (simp add: queue_inv_def)
  then have inv: "queue_inv s" unfolding s_def by (rule queue_inv_handle_events)
  then have role: "role a = Assistant" by (simp add: queue_inv_def a_def)
  have unadded: "\<not> messageAdded s"
    using assms by (simp add: s_def handle_events_messageAdded)
  have len: "length prev = length (messages s)" by (simp add: prev_def length_overwrite)
  have step: "messages (handle_event clk (TEXT_MESSAGE_CONTENT d) s) =
      replace_last_assistant a prev"
    by (simp add: Let_def a_def prev_def)
  have main: "replace_last_assistant a prev =
      (if messages s \<noteq> [] \<and> role (last (messages s)) = Assistant
       then overwrite a (pending s @ [length (messages s) - 1]) (messages s)
       else messages s)"
  proof (cases "messages s \<noteq> [] \<and> role (last (messages s)) = Assistant")
    case True
    then have "prev \<noteq> []" "role (last prev) = Assistant"
      using role by (simp_all add: prev_def overwrite_eq_Nil role_last_overwrite)
    then have "replace_last_assistant a prev = prev[length prev - 1 := a]"
      by (simp add: replace_last_assistant_def)
    with True show ?thesis by (simp add: overwrite_snoc prev_def length_overwrite)
  next
    case False
    then have "pending s = []" using inv by (auto simp: queue_inv_def)
    then have "prev = messages s" by (simp add: prev_def overwrite_Nil)
    with False show ?thesis by (auto simp: replace_last_assistant_def)
  qed
  have last: "last (replace_last_assistant a prev) = a"
    if "messages s \<noteq> [] \<and> role (last (messages s)) = Assistant"
  proof -
    from that have "prev \<noteq> []" "role (last prev) = Assistant"
      using role by (simp_all add: prev_def overwrite_eq_Nil role_last_overwrite)
    then show ?thesis by (simp add: replace_last_assistant_last)
  qed
  have "length (messages (handle_event clk (TEXT_MESSAGE_CONTENT d) s)) = length (messages s)"
    unfolding step by (simp add: length_replace_last_assistant len)
  moreover have "\<not> messageAdded (handle_event clk (TEXT_MESSAGE_CONTENT d) s)"
    using unadded by (simp add: Let_def)
  moreover have "assistantMsg (handle_event clk (TEXT_MESSAGE_CONTENT d) s) = a"
    by (simp add: Let_def a_def)
  ultimately show ?thesis
    using main last unfolding Let_def s_def [symmetric] a_def [symmetric] step by simp
qed


theorem content_without_start_creates_no_message_witness:
  "\<not> messageAdded demo_exchange \<and> pending demo_exchange = [] \<and>
   role (assistantMsg demo_exchange) = Assistant \<and>
   TEXT_MESSAGE_START \<notin> set [RUN_STARTED] \<and>
   TEXT_MESSAGE_START \<notin>
     set [RUN_ERROR ''boom'', TEXT_MESSAGE_CONTENT ''A'', RUN_ERROR ''bang''] \<and>
   messages (handle_event demo_clock (TEXT_MESSAGE_CONTENT ''Hi'')
      (handle_events demo_clock batched [RUN_STARTED] demo_exchange)) = messages demo_exchange \<and>
   content (assistantMsg (handle_event demo_clock (TEXT_MESSAGE_CONTENT ''Hi'')
      (handle_events demo_clock batched [RUN_STARTED] demo_exchange))) = ''Hi'' \<and>
   \<not> messageAdded (handle_event demo_clock (TEXT_MESSAGE_CONTENT ''B'')
      (handle_events demo_clock batched
         [RUN_ERROR ''boom'', TEXT_MESSAGE_CONTENT ''A'', RUN_ERROR ''bang''] demo_exchange)) \<and>
   map content (messages (handle_event demo_clock (TEXT_MESSAGE_CONTENT ''B'')
      (handle_events demo_clock batched
         [RUN_ERROR ''boom'', TEXT_MESSAGE_CONTENT ''A'', RUN_ERROR ''bang''] demo_exchange))) =
     [''Hello!'', ''hello'', ''AB'', ''AB''] \<and>
   map content (messages (handle_event demo_clock (TEXT_MESSAGE_CONTENT ''B'')
      (handle_events demo_clock unbatched
         [RUN_ERROR ''boom'', TEXT_MESSAGE_CONTENT ''A'', RUN_ERROR ''bang''] demo_exchange))) =
     [''Hello!'', ''hello'', ''A'', ''AB'']"
proof -
  have fresh: "\<not> messageAdded demo_exchange" "pending demo_exchange = []"
    "role (assistantMsg demo_exchange) = Assistant"
    by (simp_all add: demo_exchange_def)
  have no_start: "TEXT_MESSAGE_START \<notin> set [RUN_STARTED]"
    "TEXT_MESSAGE_START \<notin>
       set [RUN_ERROR ''boom'', TEXT_MESSAGE_CONTENT ''A'', RUN_ERROR ''bang'']"
    by simp_all
  have user_last:
    "messages (handle_events demo_clock batched [RUN_STARTED] demo_exchange) =
       messages demo_exchange"
    "role (last (messages demo_exchange)) = User"
    "content (assistantMsg (handle_events demo_clock batched [RUN_STARTED] demo_exchange)) = []"
    by (simp_all add: demo_exchange_def after_event_def batched_def)
  have late:
    "map content (messages (handle_event demo_clock (TEXT_MESSAGE_CONTENT ''B'')
      (handle_events demo_clock batched
         [RUN_ERROR ''boom'', TEXT_MESSAGE_CONTENT ''A'', RUN_ERROR ''bang''] demo_exchange))) =
     [''Hello!'', ''hello'', ''AB'', ''AB'']"
    "map content (messages (handle_event demo_clock (TEXT_MESSAGE_CONTENT ''B'')
      (handle_events demo_clock unbatched
         [RUN_ERROR ''boom'', TEXT_MESSAGE_CONTENT ''A'', RUN_ERROR ''bang''] demo_exchange))) =
     [''Hello!'', ''hello'', ''A'', ''AB'']"
    by (simp_all add: demo_exchange_def after_event_def render_def batched_def unbatched_def
        overwrite_def replace_last_assistant_def run_error_message_def Let_def)
  have hi:
    "messages (handle_event demo_clock (TEXT_MESSAGE_CONTENT ''Hi'')
      (handle_events demo_clock batched [RUN_STARTED] demo_exchange)) = messages demo_exchange"
    "content (assistantMsg (handle_event demo_clock (TEXT_MESSAGE_CONTENT ''Hi'')
      (handle_events demo_clock batched [RUN_STARTED] demo_exchange))) = ''Hi''"
    using content_without_start_creates_no_message
        [OF fresh no_start(1), of demo_clock batched "''Hi''"]
    by (simp_all add: Let_def user_last del: handle_events.simps handle_event.simps)
  have unadded:
    "\<not> messageAdded (handle_event demo_clock (TEXT_MESSAGE_CONTENT ''B'')
      (handle_events demo_clock batched
         [RUN_ERROR ''boom'', TEXT_MESSAGE_CONTENT ''A'', RUN_ERROR ''bang''] demo_exchange))"
    using content_without_start_creates_no_message
        [OF fresh no_start(2), of demo_clock batched "''B''"]
    by (simp add: Let_def del: handle_events.simps handle_event.simps)
  from fresh no_start hi unadded late show ?thesis by blast
qed

section \<open>The guard of \<^verbatim>\<open>sendMessage\<close>\<close>

text \<open>
  Claim C8.  When the input is empty after trimming, or an exchange is in progress
  (\<^verbatim>\<open>isLoading\<close>), \<^verbatim>\<open>sendMessage\<close> returns the state it was given and issues no
  request.
\<close>

theorem guard_is_noop:
  assumes "trim (input s) = [] \<or> isLoading s"
  shows "sendMessage parse clk sched fetch s = (s, None)"
  using assms by (simp add: sendMessage_def)

theorem guard_is_noop_witness:
  "(trim (input (demo_page\<lparr>input := [CHR 0x20, CHR 0x09, CHR 0x0A]\<rparr>)) = [] \<or>
      isLoading (demo_page\<lparr>input := [CHR 0x20, CHR 0x09, CHR 0x0A]\<rparr>)) \<and>
   sendMessage demo_parse demo_clock batched (stream_of [] Done)
      (demo_page\<lparr>input := [CHR 0x20, CHR 0x09, CHR 0x0A]\<rparr>) =
     (demo_page\<lparr>input := [CHR 0x20, CHR 0x09, CHR 0x0A]\<rparr>, None) \<and>
   (trim (input (demo_page\<lparr>isLoading := True\<rparr>)) = [] \<or>
      isLoading (demo_page\<lparr>isLoading := True\<rparr>)) \<and>
   sendMessage demo_parse demo_clock batched (stream_of [] Done) (demo_page\<lparr>isLoading := True\<rparr>) =
     (demo_page\<lparr>isLoading := True\<rparr>, None)"
  using guard_is_noop [of "demo_page\<lparr>input := [CHR 0x20, CHR 0x09, CHR 0x0A]\<rparr>"
      demo_parse demo_clock batched "stream_of [] Done"]
    guard_is_noop [of "demo_page\<lparr>isLoading := True\<rparr>" demo_parse demo_clock batched
      "stream_of [] Done"]
  by (simp add: trim_def is_ws_def)

section \<open>Facts about the frame splitter\<close>

lemma split_nl_nonempty: "split_nl s \<noteq> []"
  by (induction s) (auto split: list.splits)

lemma split_nl_no_break: "CHR 0x0A \<notin> set s \<Longrightarrow> split_nl s = [s]"
  by (induction s) auto

lemma split_nl_parts_no_break: "p \<in> set (split_nl s) \<Longrightarrow> CHR 0x0A \<notin> set p"
  by (induction s arbitrary: p) (auto split: if_splits list.splits)

lemma split_nl_last_no_break: "CHR 0x0A \<notin> set (last (split_nl s))"
  using split_nl_parts_no_break [of "last (split_nl s)" s] split_nl_nonempty [of s]
  by simp

lemma split_nl_glue:
  "butlast (split_nl a) @ split_nl (last (split_nl a) @ c) = split_nl (a @ c)"
proof (induction a)
  case Nil
  show ?case by simp
next
  case (Cons x a)
  note IH = Cons.IH [symmetric]
  obtain p ps where a: "split_nl a = p # ps"
    using split_nl_nonempty [of a] by (cases "split_nl a") auto
  show ?case
  proof (cases "x = CHR 0x0A")
    case True
    with IH a show ?thesis by simp
  next
    case False
    show ?thesis
    proof (cases "ps = []")
      case True
      with IH a False show ?thesis by simp
    next
      case nonempty: False
      with IH a False show ?thesis by simp
    qed
  qed
qed

lemma split_nl_reassemble:
  "concat (map (\<lambda>p. p @ [CHR 0x0A]) (butlast (split_nl s))) @ last (split_nl s) = s"
  by (induction s) (auto simp: split_nl_nonempty split: list.splits)

lemma split_buffer_eq: "split_buffer b = (butlast (split_nl b), last (split_nl b))"
  by (simp add: split_buffer_def Let_def split_nl_nonempty)

lemma split_frames_eq:
  "CHR 0x0A \<notin> set b \<Longrightarrow>
   split_frames cs b = (butlast (split_nl (b @ concat cs)), last (split_nl (b @ concat cs)))"
proof (induction cs arbitrary: b)
  case Nil
  then show ?case by (simp add: split_nl_no_break)
next
  case (Cons c cs)
  let ?b' = "last (split_nl (b @ c))"
  have glue: "butlast (split_nl (b @ c)) @ split_nl (?b' @ concat cs) =
      split_nl (b @ c @ concat cs)"
    using split_nl_glue [of "b @ c" "concat cs"] by simp
  have "split_frames cs ?b' =
      (butlast (split_nl (?b' @ concat cs)), last (split_nl (?b' @ concat cs)))"
    by (rule Cons.IH) (rule split_nl_last_no_break)
  then have "split_frames (c # cs) b =
      (butlast (split_nl (b @ c)) @ butlast (split_nl (?b' @ concat cs)),
       last (split_nl (?b' @ concat cs)))"
    by (simp add: split_buffer_eq)
  also have "butlast (split_nl (b @ c)) @ butlast (split_nl (?b' @ concat cs)) =
      butlast (split_nl (b @ c @ concat cs))"
    using glue split_nl_nonempty [of "?b' @ concat cs"] by (metis butlast_append)
  also have "last (split_nl (?b' @ concat cs)) = last (split_nl (b @ c @ concat cs))"
    using glue split_nl_nonempty [of "?b' @ concat cs"] by (metis last_appendR)
  finally show ?case by simp
qed

lemma handle_parts_append:
  "handle_parts parse clk sched (ps @ qs) s = handle_parts parse clk sched qs (handle_parts parse clk sched ps s)"
  by (induction ps arbitrary: s) simp_all

lemma read_loop_split_frames:
  "read_loop parse clk sched cs (b, s) =
     (snd (split_frames cs b), handle_parts parse clk sched (fst (split_frames cs b)) s)"
  by (induction cs arbitrary: b s) (simp_all add: handle_parts_append split: prod.splits)

lemma read_loop_eq:
  "read_loop parse clk sched cs ([], s) =
     (last (split_nl (concat cs)), handle_parts parse clk sched (butlast (split_nl (concat cs))) s)"
  by (simp add: read_loop_split_frames split_frames_eq)

lemma split_nl_append_fragment:
  assumes "CHR 0x0A \<notin> set frag"
  shows "split_nl (t @ frag) = butlast (split_nl t) @ [last (split_nl t) @ frag]"
proof -
  have "CHR 0x0A \<notin> set (last (split_nl t) @ frag)"
    using assms split_nl_last_no_break [of t] by simp
  then have "split_nl (last (split_nl t) @ frag) = [last (split_nl t) @ frag]"
    by (rule split_nl_no_break)
  then show ?thesis using split_nl_glue [of t frag] by simp
qed

text \<open>
  Claim C5.  Two sequences of chunks with the same concatenation give the same frames in
  the same order and leave the same buffer, those of the whole text split at once
  (lines 116-117 applied to the concatenation).  The frames are what the read loop hands to
  the decoder, one after the other, and the buffer is what it retains; so the loop ends
  in the same state for both.  No frame and no retained buffer holds a line break, and
  the frames, each followed by a line break, and then the buffer, spell the text that was
  fed: every line that a line break ends is a frame, and nothing is split, dropped or
  duplicated.
\<close>

theorem chunk_boundary_independence:
  assumes "concat cs1 = concat cs2"
  shows "split_frames cs1 [] = split_frames cs2 [] \<and>
         split_frames cs1 [] = split_buffer (concat cs1) \<and>
         read_loop parse clk sched cs1 ([], s) =
           (snd (split_frames cs1 []),
            handle_parts parse clk sched (fst (split_frames cs1 [])) s) \<and>
         read_loop parse clk sched cs1 ([], s) = read_loop parse clk sched cs2 ([], s) \<and>
         list_all (\<lambda>f. CHR 0x0A \<notin> set f) (fst (split_frames cs1 [])) \<and>
         CHR 0x0A \<notin> set (snd (split_frames cs1 [])) \<and>
         concat (map (\<lambda>f. f @ [CHR 0x0A]) (fst (split_frames cs1 []))) @ snd (split_frames cs1 []) =
           concat cs1"
proof -
  have "list_all (\<lambda>f. CHR 0x0A \<notin> set f) (butlast (split_nl (concat cs1)))"
    unfolding list_all_iff using split_nl_parts_no_break in_set_butlastD by fast
  moreover have "read_loop parse clk sched cs1 ([], s) =
      (snd (split_frames cs1 []), handle_parts parse clk sched (fst (split_frames cs1 [])) s)"
    by (rule read_loop_split_frames)
  ultimately show ?thesis
    using assms
    by (simp add: read_loop_eq split_frames_eq split_buffer_eq split_nl_reassemble
        split_nl_last_no_break)
qed

theorem chunk_boundary_independence_witness:
  \<open>concat [''data: {"type":"TEXT_MESSAGE_START"}\<newline>da'',
           ''ta: {"type":"TEXT_MESSAGE_CONTENT","delta":"Hi"}\<newline>da''] =
     concat [''d'', ''ata: {"type":"TEXT_MESSAGE_START"}\<newline>data: {"type":"TEXT_MESSAGE_CONTENT","delta":"Hi"}\<newline>d'',
             ''a''] \<and>
   split_frames [''data: {"type":"TEXT_MESSAGE_START"}\<newline>da'',
                 ''ta: {"type":"TEXT_MESSAGE_CONTENT","delta":"Hi"}\<newline>da''] [] =
     ([''data: {"type":"TEXT_MESSAGE_START"}'',
       ''data: {"type":"TEXT_MESSAGE_CONTENT","delta":"Hi"}''], ''da'') \<and>
   split_frames [''d'', ''ata: {"type":"TEXT_MESSAGE_START"}\<newline>data: {"type":"TEXT_MESSAGE_CONTENT","delta":"Hi"}\<newline>d'',
                 ''a''] [] =
     ([''data: {"type":"TEXT_MESSAGE_START"}'',
       ''data: {"type":"TEXT_MESSAGE_CONTENT","delta":"Hi"}''], ''da'') \<and>
   fst (read_loop demo_parse demo_clock batched
     [''d'', ''ata: {"type":"TEXT_MESSAGE_START"}\<newline>data: {"type":"TEXT_MESSAGE_CONTENT","delta":"Hi"}\<newline>d'',
      ''a''] ([], demo_exchange)) = ''da'' \<and>
   messages (snd (read_loop demo_parse demo_clock batched
     [''d'', ''ata: {"type":"TEXT_MESSAGE_START"}\<newline>data: {"type":"TEXT_MESSAGE_CONTENT","delta":"Hi"}\<newline>d'',
      ''a''] ([], demo_exchange))) =
     messages demo_exchange @
       [\<lparr>msg_id = 1002, role = Assistant, content = ''Hi'', time = ''11:00 AM''\<rparr>]\<close>
proof -
  have same: \<open>concat [''data: {"type":"TEXT_MESSAGE_START"}\<newline>da'',
           ''ta: {"type":"TEXT_MESSAGE_CONTENT","delta":"Hi"}\<newline>da''] =
     concat [''d'', ''ata: {"type":"TEXT_MESSAGE_START"}\<newline>data: {"type":"TEXT_MESSAGE_CONTENT","delta":"Hi"}\<newline>d'',
             ''a'']\<close>
    by simp
  have frames: \<open>split_frames [''data: {"type":"TEXT_MESSAGE_START"}\<newline>da'',
                 ''ta: {"type":"TEXT_MESSAGE_CONTENT","delta":"Hi"}\<newline>da''] [] =
     ([''data: {"type":"TEXT_MESSAGE_START"}'',
       ''data: {"type":"TEXT_MESSAGE_CONTENT","delta":"Hi"}''], ''da'')\<close>
    by (simp add: split_buffer_def)
  have handled: \<open>messages (handle_parts demo_parse demo_clock batched
       [''data: {"type":"TEXT_MESSAGE_START"}'',
        ''data: {"type":"TEXT_MESSAGE_CONTENT","delta":"Hi"}''] demo_exchange) =
     messages demo_exchange @
       [\<lparr>msg_id = 1002, role = Assistant, content = ''Hi'', time = ''11:00 AM''\<rparr>]\<close>
    by (simp add: handle_part_def demo_parse_def demo_exchange_def after_event_def batched_def
        overwrite_def replace_last_assistant_def Let_def)
  note c5 = chunk_boundary_independence [OF same, of demo_parse demo_clock batched demo_exchange]
  note frames_same = c5 [THEN conjunct1, symmetric]
  note loop_frames = c5 [THEN conjunct2, THEN conjunct2, THEN conjunct1]
  note loop_same = c5 [THEN conjunct2, THEN conjunct2, THEN conjunct2, THEN conjunct1, symmetric]
  have frames': \<open>split_frames [''d'', ''ata: {"type":"TEXT_MESSAGE_START"}\<newline>data: {"type":"TEXT_MESSAGE_CONTENT","delta":"Hi"}\<newline>d'',
                 ''a''] [] =
     ([''data: {"type":"TEXT_MESSAGE_START"}'',
       ''data: {"type":"TEXT_MESSAGE_CONTENT","delta":"Hi"}''], ''da'')\<close>
    by (simp only: frames_same frames)
  have loop: \<open>read_loop demo_parse demo_clock batched
     [''d'', ''ata: {"type":"TEXT_MESSAGE_START"}\<newline>data: {"type":"TEXT_MESSAGE_CONTENT","delta":"Hi"}\<newline>d'',
      ''a''] ([], demo_exchange) =
     (''da'', handle_parts demo_parse demo_clock batched
       [''data: {"type":"TEXT_MESSAGE_START"}'',
        ''data: {"type":"TEXT_MESSAGE_CONTENT","delta":"Hi"}''] demo_exchange)\<close>
    by (simp only: loop_same loop_frames frames fst_conv snd_conv)
  show ?thesis
    by (simp only: same frames frames' loop handled fst_conv snd_conv simp_thms)
qed

text \<open>
  Claim C9.  When the text of a stream ends with a fragment that has no line break, the
  fragment stays in the buffer when the stream signals completion, and the state the
  loop ends in, and so the result of \<^verbatim>\<open>sendMessage\<close>, is the one of the stream without
  the fragment: what the unterminated last line carries is never decoded.
\<close>

theorem unterminated_final_line_is_discarded:
  assumes "CHR 0x0A \<notin> set frag" and "concat cs' = concat cs @ frag"
  shows "fst (read_loop parse clk sched cs' ([], x)) = fst (read_loop parse clk sched cs ([], x)) @ frag \<and>
         snd (read_loop parse clk sched cs' ([], x)) = snd (read_loop parse clk sched cs ([], x)) \<and>
         sendMessage parse clk sched (stream_of cs' Done) s = sendMessage parse clk sched (stream_of cs Done) s"
proof -
  have split: "split_nl (concat cs') =
      butlast (split_nl (concat cs)) @ [last (split_nl (concat cs)) @ frag]"
    using assms by (simp add: split_nl_append_fragment)
  then have loop: "read_loop parse clk sched cs' ([], y) =
      (fst (read_loop parse clk sched cs ([], y)) @ frag, snd (read_loop parse clk sched cs ([], y)))" for y
    by (simp add: read_loop_eq)
  have "try_block parse clk sched (Some \<lparr>ok = True, body = Some (cs', Done)\<rparr>) p =
      try_block parse clk sched (Some \<lparr>ok = True, body = Some (cs, Done)\<rparr>) p" for p
    by (simp add: try_block_def Let_def loop split: prod.splits)
  then show ?thesis
    by (simp add: loop sendMessage_def stream_of_def Let_def)
qed


theorem unterminated_final_line_is_discarded_witness:
  \<open>CHR 0x0A \<notin> set ''data: {"type":"RUN_ERROR","message":"boom"}'' \<and>
   concat [''data: {"type":"TEXT_MESSAGE_START"}\<newline>da'',
           ''ta: {"type":"RUN_ERROR","message":"boom"}''] =
     concat [''data: {"type":"TEXT_MESSAGE_START"}\<newline>''] @
       ''data: {"type":"RUN_ERROR","message":"boom"}'' \<and>
   sendMessage demo_parse demo_clock batched
     (stream_of [''data: {"type":"TEXT_MESSAGE_START"}\<newline>da'',
                 ''ta: {"type":"RUN_ERROR","message":"boom"}''] Done) demo_page =
     (\<lparr>messages =
         [\<lparr>msg_id = 1, role = Assistant, content = ''Hello!'', time = ''11:00 AM''\<rparr>,
          \<lparr>msg_id = 1000, role = User, content = ''hello'', time = ''11:00 AM''\<rparr>,
          \<lparr>msg_id = 1002, role = Assistant, content = [], time = ''11:00 AM''\<rparr>],
       input = [], isLoading = False, currentStatus = ''online'', toolCalls = [],
       userHasScrolled = False, isNearBottom = True\<rparr>, Some ''hello'')\<close>
proof -
  have \<open>sendMessage demo_parse demo_clock batched
     (stream_of [''data: {"type":"TEXT_MESSAGE_START"}\<newline>''] Done) demo_page =
     (\<lparr>messages =
         [\<lparr>msg_id = 1, role = Assistant, content = ''Hello!'', time = ''11:00 AM''\<rparr>,
          \<lparr>msg_id = 1000, role = User, content = ''hello'', time = ''11:00 AM''\<rparr>,
          \<lparr>msg_id = 1002, role = Assistant, content = [], time = ''11:00 AM''\<rparr>],
       input = [], isLoading = False, currentStatus = ''online'', toolCalls = [],
       userHasScrolled = False, isNearBottom = True\<rparr>, Some ''hello'')\<close>
    by (simp add: sendMessage_def demo_page_def trim_def is_ws_def try_block_def split_buffer_def
      begin_exchange_def handle_part_def demo_parse_def demo_clock_def Let_def
      after_event_def batched_def page_of_def finally_block_def stream_of_def)
  then show ?thesis
    using unterminated_final_line_is_discarded
      [of \<open>''data: {"type":"RUN_ERROR","message":"boom"}''\<close>
        \<open>[''data: {"type":"TEXT_MESSAGE_START"}\<newline>da'',
          ''ta: {"type":"RUN_ERROR","message":"boom"}'']\<close>
        \<open>[''data: {"type":"TEXT_MESSAGE_START"}\<newline>'']\<close>
        demo_parse demo_clock batched demo_exchange demo_page]
    by simp
qed

section \<open>Transport failures\<close>

text \<open>
  Claim C2 says that after a transport failure the generic failure message is appended
  only if the exchange has no assistant content yet.  An exchange whose stream delivers
  a message start and the content delta \<^verbatim>\<open>"Hi"\<close> and then fails ends with both the
  assistant message \<^verbatim>\<open>"Hi"\<close> and the generic failure message in the transcript.
\<close>

theorem failure_message_counterexample:
  \<open>messages (fst (sendMessage demo_parse demo_clock batched
      (stream_of [''data: {"type":"TEXT_MESSAGE_START"}\<newline>'',
                  ''data: {"type":"TEXT_MESSAGE_CONTENT","delta":"Hi"}\<newline>''] ReadFailed)
      demo_page)) =
     [\<lparr>msg_id = 1, role = Assistant, content = ''Hello!'', time = ''11:00 AM''\<rparr>,
      \<lparr>msg_id = 1000, role = User, content = ''hello'', time = ''11:00 AM''\<rparr>,
      \<lparr>msg_id = 1002, role = Assistant, content = ''Hi'', time = ''11:00 AM''\<rparr>,
      \<lparr>msg_id = 1004, role = Assistant,
        content = ''Sorry, an error occurred. Please try again.'', time = ''11:00 AM''\<rparr>]\<close>
  by (simp add: sendMessage_def demo_page_def trim_def is_ws_def try_block_def split_buffer_def
      begin_exchange_def handle_part_def demo_parse_def demo_clock_def Let_def
      replace_last_assistant_def overwrite_def after_event_def batched_def page_of_def
      catch_block_def finally_block_def failure_text_def stream_of_def)

lemma messages_finally_block: "messages (finally_block s) = messages s"
  by (simp add: finally_block_def)

lemma messages_catch_block:
  "messages (catch_block t s) =
     messages s @ [\<lparr>msg_id = now t + 2, role = Assistant, content = failure_text, time = hhmm t\<rparr>]"
  by (simp add: catch_block_def)

lemma try_block_failure:
  "transport_failure resp \<Longrightarrow>
   \<exists>t p. try_block parse clk sched resp s = catch_block t p"
  by (auto simp: transport_failure_def try_block_def Let_def
      split: option.splits prod.splits stream_end.splits if_splits)

text \<open>
  Claim C2, amended.  For a submission that passes the guard, every transport failure
  (rejected \<^verbatim>\<open>fetch\<close>, response that is not a success or has no body, rejected read)
  leaves the generic failure message as the last message of the transcript, whether or
  not the exchange has assistant content: when the stream fails after the chunks \<open>cs\<close>,
  the transcript is the one the same chunks give when the stream completes, with the
  failure message appended.
\<close>

theorem transport_failure_always_appends:
  assumes "trim (input s) \<noteq> []" and "\<not> isLoading s"
  shows "(transport_failure (fetch (trim (input s))) \<longrightarrow>
            messages (fst (sendMessage parse clk sched fetch s)) \<noteq> [] \<and>
            role (last (messages (fst (sendMessage parse clk sched fetch s)))) = Assistant \<and>
            content (last (messages (fst (sendMessage parse clk sched fetch s)))) = failure_text) \<and>
         butlast (messages (fst (sendMessage parse clk sched (stream_of cs ReadFailed) s))) =
           messages (fst (sendMessage parse clk sched (stream_of cs Done) s))"
proof -
  have a: "messages (fst (sendMessage parse clk sched fetch s)) \<noteq> [] \<and>
      role (last (messages (fst (sendMessage parse clk sched fetch s)))) = Assistant \<and>
      content (last (messages (fst (sendMessage parse clk sched fetch s)))) = failure_text"
    if failed: "transport_failure (fetch (trim (input s)))"
  proof -
    let ?s1 = "s\<lparr>messages := messages s @
          [\<lparr>msg_id = now (clk 0), role = User, content = trim (input s), time = hhmm (clk 0)\<rparr>],
        input := [], isLoading := True, currentStatus := ''thinking...'', toolCalls := [],
        userHasScrolled := False, isNearBottom := True\<rparr>"
    obtain t p where "try_block parse clk sched (fetch (trim (input s))) ?s1 = catch_block t p"
      using try_block_failure [OF failed] by blast
    then show ?thesis
      using assms by (simp add: sendMessage_def Let_def messages_finally_block messages_catch_block)
  qed
  have b: "butlast (messages (fst (sendMessage parse clk sched (stream_of cs ReadFailed) s))) =
      messages (fst (sendMessage parse clk sched (stream_of cs Done) s))"
    using assms
    by (simp add: sendMessage_def Let_def stream_of_def try_block_def messages_finally_block
        messages_catch_block split: prod.splits)
  from a b show ?thesis by blast
qed

theorem transport_failure_always_appends_witness:
  \<open>trim (input demo_page) \<noteq> [] \<and> \<not> isLoading demo_page \<and>
   transport_failure
     (stream_of [''data: {"type":"TEXT_MESSAGE_START"}\<newline>'',
                 ''data: {"type":"TEXT_MESSAGE_CONTENT","delta":"Hi"}\<newline>''] ReadFailed
        (trim (input demo_page))) \<and>
   content (last (messages (fst (sendMessage demo_parse demo_clock batched
      (stream_of [''data: {"type":"TEXT_MESSAGE_START"}\<newline>'',
                  ''data: {"type":"TEXT_MESSAGE_CONTENT","delta":"Hi"}\<newline>''] ReadFailed)
      demo_page)))) = ''Sorry, an error occurred. Please try again.'' \<and>
   butlast (messages (fst (sendMessage demo_parse demo_clock batched
      (stream_of [''data: {"type":"TEXT_MESSAGE_START"}\<newline>'',
                  ''data: {"type":"TEXT_MESSAGE_CONTENT","delta":"Hi"}\<newline>''] ReadFailed)
      demo_page))) =
     messages (fst (sendMessage demo_parse demo_clock batched
      (stream_of [''data: {"type":"TEXT_MESSAGE_START"}\<newline>'',
                  ''data: {"type":"TEXT_MESSAGE_CONTENT","delta":"Hi"}\<newline>''] Done)
      demo_page))\<close>
proof -
  have pre: "trim (input demo_page) \<noteq> []" "\<not> isLoading demo_page"
    by (simp_all add: demo_page_def trim_def is_ws_def)
  have fail: \<open>transport_failure
     (stream_of [''data: {"type":"TEXT_MESSAGE_START"}\<newline>'',
                 ''data: {"type":"TEXT_MESSAGE_CONTENT","delta":"Hi"}\<newline>''] ReadFailed
        (trim (input demo_page)))\<close>
    by (simp add: transport_failure_def stream_of_def)
  show ?thesis
    using pre fail
      transport_failure_always_appends [OF pre, of
        \<open>stream_of [''data: {"type":"TEXT_MESSAGE_START"}\<newline>'',
                 ''data: {"type":"TEXT_MESSAGE_CONTENT","delta":"Hi"}\<newline>''] ReadFailed\<close>
        demo_parse demo_clock batched
        \<open>[''data: {"type":"TEXT_MESSAGE_START"}\<newline>'',
                 ''data: {"type":"TEXT_MESSAGE_CONTENT","delta":"Hi"}\<newline>'']\<close>]
    by (simp add: failure_text_def)
qed

end
